theory Spec2Isabelle
  imports Main
begin

section \<open>Inferno Guide API: the circle catalog and the journey builder\<close>

text \<open>
  A shallow embedding of \<^verbatim>\<open>src/main.py\<close>: the pydantic models become records, the
  module-level list \<^verbatim>\<open>CIRCLES\<close> a constant list, and the two endpoints
  \<^verbatim>\<open>get_circles\<close> and \<^verbatim>\<open>build_journey\<close> HOL functions. Python's \<^verbatim>\<open>int\<close> is
  \<^typ>\<open>int\<close>; a Python \<^verbatim>\<open>str\<close> is a \<^typ>\<open>string\<close> holding its UTF-8 bytes.
\<close>

subsection \<open>Data model\<close>

text \<open>
  \<^verbatim>\<open>class Circle(BaseModel)\<close>. The field \<^verbatim>\<open>id\<close> is written \<open>id'\<close>, since \<open>id\<close> is
  the identity function of HOL. \<^verbatim>\<open>quote: Optional[str] = None\<close> is an option.
\<close>

record Circle =
  id' :: int
  name :: string
  sin :: string
  guardians :: "string list"
  punishment :: string
  motto :: string
  color :: string
  quote :: "string option"

text \<open>
  \<^verbatim>\<open>class JourneyRequest(BaseModel)\<close>, after validation: all three fields are present.
\<close>

record JourneyRequest =
  mood :: string
  interest :: string
  intensity :: int

text \<open>
  \<^verbatim>\<open>class JourneyStop(BaseModel)\<close>. Its field \<^verbatim>\<open>title\<close> is written \<open>stop_title\<close>: the
  response has a field \<^verbatim>\<open>title\<close> too, and record fields share one name space.
\<close>

record JourneyStop =
  circle_id :: int
  stop_title :: string
  takeaway :: string

text \<open>
  \<^verbatim>\<open>class JourneyResponse(BaseModel)\<close>. The field \<^verbatim>\<open>note\<close> is written \<open>note'\<close>, since
  \<open>note\<close> is a keyword of the proof language.
\<close>

record JourneyResponse =
  title :: string
  path :: "JourneyStop list"
  note' :: string

subsection \<open>The catalog\<close>

text \<open>
  \<^verbatim>\<open>CIRCLES\<close>, lines 29 to 113, in definition order. Circles 3 to 9 give no
  \<^verbatim>\<open>quote\<close>, so the field keeps its default \<^verbatim>\<open>None\<close>. The quote of circle 2 ends with
  the character U+2026 (horizontal ellipsis), here its three UTF-8 bytes.
\<close>

definition CIRCLES :: "Circle list" where
  "CIRCLES = [
     \<lparr>id' = 1, name = ''Limbo'', sin = ''The Unbaptized & Virtuous Pagans'',
      guardians = [''Minos (on threshold)'', ''Poets''],
      punishment = ''Eternal longing without torment'',
      motto = ''Where hope is a horizon you can see but never reach.'',
      color = ''#a7f3d0'',
      quote = Some ''We are those who without hope live in desire.''\<rparr>,
     \<lparr>id' = 2, name = ''Lust'', sin = ''Swept by passion'',
      guardians = [''Minos'', ''Francesca & Paolo''],
      punishment = ''Whirled in an endless storm'',
      motto = ''To be carried by every wind is to never arrive.'',
      color = ''#fda4af'',
      quote = Some (''Love, which quickly kindles in the gentle heart''
                    @ [CHR 0xE2, CHR 0x80, CHR 0xA6])\<rparr>,
     \<lparr>id' = 3, name = ''Gluttony'', sin = ''Excess and indulgence'',
      guardians = [''Cerberus''],
      punishment = ''Battered by icy rain and filth'',
      motto = ''What consumes you is not what you eat, but what you cannot refuse.'',
      color = ''#fde68a'',
      quote = None\<rparr>,
     \<lparr>id' = 4, name = ''Greed'', sin = ''Hoarders & Wasters'',
      guardians = [''Plutus''],
      punishment = ''Push great weights against each other forever'',
      motto = ''The weight of wanting more is heavier than gold.'',
      color = ''#fbbf24'',
      quote = None\<rparr>,
     \<lparr>id' = 5, name = ''Wrath'', sin = ''Wrathful & Sullen'',
      guardians = [''Phlegyas''],
      punishment = ''Fight on the surface; drown below'',
      motto = ''Anger burns bright; resentment smolders cold.'',
      color = ''#f87171'',
      quote = None\<rparr>,
     \<lparr>id' = 6, name = ''Heresy'', sin = ''Denial of immortality'',
      guardians = [''Furies'', ''Medusa''],
      punishment = ''Burn in flaming tombs'',
      motto = ''To deny forever is to be sealed within your own certainty.'',
      color = ''#fb7185'',
      quote = None\<rparr>,
     \<lparr>id' = 7, name = ''Violence'', sin = ''Against others, self, God & nature'',
      guardians = [''Minotaur'', ''Centaurs''],
      punishment = ''Boiling blood, forest of suicides, burning sand'',
      motto = ''Violence returns to the hand that wields it.'',
      color = ''#ef4444'',
      quote = None\<rparr>,
     \<lparr>id' = 8, name = ''Fraud'', sin = ''Ten Malebolge of deception'',
      guardians = [''Geryon''],
      punishment = ''Ten ditches for ten kinds of lies'',
      motto = ''Masks grow heavy when worn forever.'',
      color = ''#f43f5e'',
      quote = None\<rparr>,
     \<lparr>id' = 9, name = ''Treachery'', sin = ''Betrayers frozen in Cocytus'',
      guardians = [''Lucifer''],
      punishment = ''Entombed in ice at various depths'',
      motto = ''The coldest places are reserved for those who betray trust.'',
      color = ''#60a5fa'',
      quote = None\<rparr>]"

text \<open>\<^verbatim>\<open>get_circles\<close>, lines 144 to 146: the endpoint returns the catalog as it is.\<close>

definition get_circles :: "Circle list" where
  "get_circles = CIRCLES"

subsection \<open>Request validation\<close>




text \<open>The requests that validation lets through.\<close>

definition valid_request :: "JourneyRequest \<Rightarrow> bool" where
  "valid_request req = (1 \<le> intensity req \<and> intensity req \<le> 10)"

subsection \<open>The journey builder\<close>

text \<open>
  \<^verbatim>\<open>str.lower()\<close> on the letters A to Z; every other byte is kept. Python lowers the
  letters of other alphabets as well; the only one that becomes an ASCII letter is the
  Kelvin sign U+212A, lowered to k, and no key of the two tables below has a k, so a
  lookup hits here exactly when it hits in Python.
\<close>

definition lower_char :: "char \<Rightarrow> char" where
  "lower_char c =
     (let n = (of_char c :: nat)
      in if 65 \<le> n \<and> n \<le> 90 then char_of (n + 32) else c)"

definition lower :: "string \<Rightarrow> string" where
  "lower s = map lower_char s"

text \<open>\<^verbatim>\<open>mood_map\<close> and \<^verbatim>\<open>interest_map\<close>, lines 151 to 163, as association lists.\<close>

definition mood_map :: "(string \<times> int list) list" where
  "mood_map = [
     (''curious'', [1, 2, 3, 4]),
     (''somber'', [6, 9]),
     (''reflective'', [1, 5, 7]),
     (''adventurous'', [2, 7, 8])]"

definition interest_map :: "(string \<times> int list) list" where
  "interest_map = [
     (''literature'', [1, 2, 5]),
     (''psychology'', [2, 3, 5, 7]),
     (''myth'', [4, 6, 7, 8]),
     (''morality'', [1, 4, 9]),
     (''aesthetics'', [2, 6, 9])]"

text \<open>\<^verbatim>\<open>d.get(key, default)\<close> on such a table.\<close>

definition get :: "('k \<times> 'v) list \<Rightarrow> 'k \<Rightarrow> 'v \<Rightarrow> 'v" where
  "get d k dflt = (case map_of d k of None \<Rightarrow> dflt | Some v \<Rightarrow> v)"

text \<open>
  Lines 166 and 167: \<^verbatim>\<open>base\<close>, the set of the mood's identifiers updated with the
  interest's.
\<close>

definition base :: "JourneyRequest \<Rightarrow> int set" where
  "base req =
     set (get mood_map (lower (mood req)) [1, 2, 3])
     \<union> set (get interest_map (lower (interest req)) [4, 5])"

text \<open>Line 170: the local \<^verbatim>\<open>length\<close>, the target number of stops.\<close>

definition path_length :: "int \<Rightarrow> int" where
  "path_length n = max 3 (min 7 (2 + n div 2))"

text \<open>
  Lines 175 to 179: the padding loop over the candidates \<open>cs\<close>. It breaks as soon as
  \<open>ordered\<close> has \<open>len\<close> elements, and appends a candidate that is not in \<open>ordered\<close>.
\<close>

fun pad :: "int \<Rightarrow> int list \<Rightarrow> int list \<Rightarrow> int list" where
  "pad len ordered [] = ordered"
| "pad len ordered (c # cs) =
     (if int (length ordered) \<ge> len then ordered
      else if c \<notin> set ordered then pad len (ordered @ [c]) cs
      else pad len ordered cs)"

definition PRIORITY :: "int list" where
  "PRIORITY = [6, 7, 8, 9, 5, 4, 3, 2, 1]"

text \<open>
  Lines 172 to 179, from the list \<open>listing\<close> that \<^verbatim>\<open>list(base)\<close> returns. The slice
  \<^verbatim>\<open>[:length]\<close> is \<open>take\<close>: \<open>len\<close> is \<open>path_length\<close> of something, so at least 3, and the
  slice never counts from the end.
\<close>

definition select_ids :: "int list \<Rightarrow> int \<Rightarrow> int list" where
  "select_ids listing len =
     (let ordered = take (nat len) (sort listing)
      in if int (length ordered) < len then pad len ordered PRIORITY else ordered)"

text \<open>The \<^verbatim>\<open>takeaway\<close> table of lines 187 to 197.\<close>

definition takeaways :: "(int \<times> string) list" where
  "takeaways = [
     (1, ''Hope without action is a gentle prison.''),
     (2, ''Desire untethered becomes a storm.''),
     (3, ''Comfort can drown purpose.''),
     (4, ''The pursuit of more can empty the soul.''),
     (5, ''Anger can power you or poison you.''),
     (6, ''Certainty can calcify curiosity.''),
     (7, ''Violence echoes back to the source.''),
     (8, ''Deception distorts the self first.''),
     (9, ''Trust is a sacred architecture.'')]"

text \<open>
  Lines 181 to 198: the loop that builds the stops. \<^verbatim>\<open>next((c for c in CIRCLES if
  c.id == cid), None)\<close> is \<open>find\<close>; an identifier with no circle is skipped
  (\<^verbatim>\<open>continue\<close>).
\<close>

fun make_stops :: "int list \<Rightarrow> JourneyStop list" where
  "make_stops [] = []"
| "make_stops (cid # cids) =
     (case find (\<lambda>c. id' c = cid) CIRCLES of
        None \<Rightarrow> make_stops cids
      | Some circle \<Rightarrow>
          \<lparr>circle_id = cid,
           stop_title = name circle @ '': '' @ sin circle,
           takeaway = get takeaways cid (motto circle)\<rparr> # make_stops cids)"

definition NOTE :: string where
  "NOTE = ''Your path is a reflection, not a sentence. Carry the insight, not the weight.''"

text \<open>
  Lines 170 to 201, from the list that \<^verbatim>\<open>list(base)\<close> returns and the intensity.
\<close>

definition journey_of_listing :: "int list \<Rightarrow> int \<Rightarrow> JourneyResponse" where
  "journey_of_listing listing n =
     \<lparr>title = ''A Personal Descent'',
      path = make_stops (select_ids listing (path_length n)),
      note' = NOTE\<rparr>"

text \<open>
  \<^verbatim>\<open>build_journey\<close>, lines 149 to 201. Python does not fix the order in which
  \<^verbatim>\<open>list(base)\<close> enumerates a set; the model takes the ascending enumeration, and
  \<open>journey_of_listing\<close> keeps the enumeration as an argument so that the choice can be
  shown not to matter.
\<close>

definition ordered_ids :: "JourneyRequest \<Rightarrow> int list" where
  "ordered_ids req =
     select_ids (sorted_list_of_set (base req)) (path_length (intensity req))"

definition build_journey :: "JourneyRequest \<Rightarrow> JourneyResponse" where
  "build_journey req =
     journey_of_listing (sorted_list_of_set (base req)) (intensity req)"


subsection \<open>The specification's vocabulary\<close>

text \<open>
  \<open>clamp x lo hi\<close> as the specification uses it: \<open>x\<close> brought into the range from
  \<open>lo\<close> to \<open>hi\<close>. The source computes the target length with \<^verbatim>\<open>max\<close> and \<^verbatim>\<open>min\<close>
  (\<open>path_length\<close>); theorems compare the two.
\<close>

definition clamp :: "int \<Rightarrow> int \<Rightarrow> int \<Rightarrow> int" where
  "clamp x lo hi = (if x < lo then lo else if hi < x then hi else x)"

section \<open>Properties\<close>

subsection \<open>The target length and the padding loop\<close>

lemma path_length_bounds: "3 \<le> path_length n \<and> path_length n \<le> 7"
  by (simp add: path_length_def)

lemma pad_eq:
  "distinct cs \<Longrightarrow>
   pad len ordered cs =
     ordered @ take (nat (len - int (length ordered))) (filter (\<lambda>c. c \<notin> set ordered) cs)"
proof (induction cs arbitrary: ordered)
  case Nil
  then show ?case by simp
next
  case (Cons c cs)
  show ?case
  proof (cases "int (length ordered) \<ge> len")
    case True
    then show ?thesis by simp
  next
    case False
    note notfull = this
    show ?thesis
    proof (cases "c \<in> set ordered")
      case True
      with notfull Cons show ?thesis by simp
    next
      case False
      from Cons.prems have c: "c \<notin> set cs" and d: "distinct cs" by simp_all
      have f: "filter (\<lambda>x. x \<notin> set (ordered @ [c])) cs = filter (\<lambda>x. x \<notin> set ordered) cs"
        using c by (intro filter_cong) auto
      from notfull obtain k where k: "nat (len - int (length ordered)) = Suc k"
        by (cases "nat (len - int (length ordered))") auto
      then have k': "nat (len - int (length (ordered @ [c]))) = k" by simp
      show ?thesis
        using False notfull Cons.IH[OF d, of "ordered @ [c]"] 
        by (simp only: pad.simps f k k') simp
    qed
  qed
qed

lemma PRIORITY_distinct: "distinct PRIORITY"
  by (simp add: PRIORITY_def)

lemma PRIORITY_set: "set PRIORITY = {1..9}"
  by (auto simp: PRIORITY_def)

lemma missing_count:
  assumes "distinct ordered" and "set ordered \<subseteq> {1..9}"
  shows "length (filter (\<lambda>c. c \<notin> set ordered) PRIORITY) = 9 - length ordered"
proof -
  have "length (filter (\<lambda>c. c \<notin> set ordered) PRIORITY)
        = card (set PRIORITY - set ordered)"
    using PRIORITY_distinct by (simp add: distinct_length_filter Diff_eq Int_commute Collect_neg_eq)
  also have "\<dots> = card (set PRIORITY) - card (set ordered)"
    using assms(2) by (simp add: card_Diff_subset PRIORITY_set)
  also have "\<dots> = 9 - length ordered"
    using assms(1) by (simp add: PRIORITY_set distinct_card)
  finally show ?thesis .
qed

lemma select_ids_pad:
  assumes "int (length listing) < len"
  shows "select_ids listing len =
         sort listing @ take (nat len - length listing)
                             (filter (\<lambda>c. c \<notin> set listing) PRIORITY)"
proof -
  from assms have t: "take (nat len) (sort listing) = sort listing" by simp
  have n: "nat (len - int (length listing)) = nat len - length listing" by simp
  show ?thesis
    using assms by (simp add: select_ids_def Let_def t pad_eq [OF PRIORITY_distinct] n)
qed

lemma select_ids_take:
  assumes "len \<le> int (length listing)"
  shows "select_ids listing len = take (nat len) (sort listing)"
  using assms by (auto simp: select_ids_def Let_def)

lemma select_ids_distinct:
  assumes "distinct listing"
  shows "distinct (select_ids listing len)"
proof (cases "int (length listing) < len")
  case True
  then show ?thesis
    using assms PRIORITY_distinct
    by (auto simp: select_ids_pad dest: in_set_takeD)
next
  case False
  then show ?thesis using assms by (simp add: select_ids_take)
qed

lemma select_ids_range:
  assumes "set listing \<subseteq> {1..9}"
  shows "set (select_ids listing len) \<subseteq> {1..9}"
proof (cases "int (length listing) < len")
  case True
  have "set (take (nat len - length listing) (filter (\<lambda>c. c \<notin> set listing) PRIORITY))
        \<subseteq> set PRIORITY"
    by (auto dest: in_set_takeD)
  then show ?thesis
    using True assms by (simp add: select_ids_pad PRIORITY_set)
next
  case False
  have "set (take (nat len) (sort listing)) \<subseteq> set (sort listing)"
    by (rule set_take_subset)
  then show ?thesis using False assms by (simp add: select_ids_take)
qed

lemma select_ids_length:
  assumes "distinct listing" and "set listing \<subseteq> {1..9}" and "0 \<le> len" and "len \<le> 9"
  shows "int (length (select_ids listing len)) = len"
proof (cases "int (length listing) < len")
  case True
  have "length (filter (\<lambda>c. c \<notin> set listing) PRIORITY) = 9 - length listing"
    using assms(1,2) by (rule missing_count)
  then have "length (select_ids listing len)
             = length listing + min (9 - length listing) (nat len - length listing)"
    using True by (simp add: select_ids_pad)
  then show ?thesis
    using True assms(3,4) by linarith
next
  case False
  then have "length (select_ids listing len) = min (length listing) (nat len)"
    by (simp add: select_ids_take)
  then show ?thesis
    using False assms(3) by linarith
qed

lemma get_mood_range: "set (get mood_map k [1, 2, 3]) \<subseteq> {1..9}"
  by (simp add: get_def mood_map_def)

lemma get_interest_range: "set (get interest_map k [4, 5]) \<subseteq> {1..9}"
  by (simp add: get_def interest_map_def)

lemma base_range: "base req \<subseteq> {1..9}"
  using get_mood_range get_interest_range by (simp add: base_def)

lemma base_finite: "finite (base req)"
  by (simp add: base_def)

lemma find_circle: 
  assumes "cid \<in> {1..9}"
  shows "\<exists>c. find (\<lambda>c. id' c = cid) CIRCLES = Some c \<and> id' c = cid"
proof -
  have "map id' CIRCLES = [1..9]"
    by (simp add: CIRCLES_def upto.simps)
  then have "set (map id' CIRCLES) = {1..9}" by simp
  with assms have "cid \<in> id' ` set CIRCLES" by simp
  then have "find (\<lambda>c. id' c = cid) CIRCLES \<noteq> None"
    by (auto simp: find_None_iff)
  then obtain c where c: "find (\<lambda>c. id' c = cid) CIRCLES = Some c" by auto
  then have "id' c = cid" by (auto simp: find_Some_iff)
  with c show ?thesis by simp
qed

lemma make_stops_ids:
  "set cids \<subseteq> {1..9} \<Longrightarrow> map circle_id (make_stops cids) = cids"
proof (induction cids)
  case Nil
  show ?case by simp
next
  case (Cons cid cids)
  then have "cid \<in> {1..9}" by simp
  then obtain c where "find (\<lambda>c. id' c = cid) CIRCLES = Some c"
    using find_circle by blast
  with Cons show ?case by simp
qed

lemma ordered_ids_range: "set (ordered_ids req) \<subseteq> {1..9}"
  unfolding ordered_ids_def
  by (rule select_ids_range) (simp add: base_finite base_range)

lemma ordered_ids_distinct: "distinct (ordered_ids req)"
  unfolding ordered_ids_def
  by (rule select_ids_distinct) simp

lemma ordered_ids_length: "int (length (ordered_ids req)) = path_length (intensity req)"
  unfolding ordered_ids_def
proof (rule select_ids_length)
  show "distinct (sorted_list_of_set (base req))" by simp
  show "set (sorted_list_of_set (base req)) \<subseteq> {1..9}"
    by (simp add: base_finite base_range)
  show "0 \<le> path_length (intensity req)" "path_length (intensity req) \<le> 9"
    using path_length_bounds [of "intensity req"] by simp_all
qed

lemma path_build_journey: "path (build_journey req) = make_stops (ordered_ids req)"
  by (simp add: build_journey_def journey_of_listing_def ordered_ids_def)

lemma stop_ids: "map circle_id (path (build_journey req)) = ordered_ids req"
  by (simp add: path_build_journey make_stops_ids ordered_ids_range)

lemma sort_listing:
  assumes "distinct xs" and "set xs = A"
  shows "sort xs = sorted_list_of_set A"
proof (rule sorted_distinct_set_unique)
  from assms have "finite A" by auto
  then show "set (sort xs) = set (sorted_list_of_set A)"
    using assms(2) by simp
  show "distinct (sort xs)" using assms(1) by simp
qed simp_all

subsection \<open>The number of stops\<close>

lemma path_length_clamp: "path_length n = clamp (2 + n div 2) 3 7"
  by (simp add: path_length_def clamp_def)

lemma stop_count: "int (length (path (build_journey req))) = path_length (intensity req)"
proof -
  have "length (path (build_journey req)) = length (map circle_id (path (build_journey req)))"
    by simp
  also have "\<dots> = length (ordered_ids req)"
    by (simp only: stop_ids)
  finally show ?thesis
    by (simp add: ordered_ids_length)
qed

text \<open>
  Claim C1. For every valid request (intensity from 1 to 10), the response of
  \<open>build_journey\<close> has \<open>clamp (2 + intensity div 2) 3 7\<close> stops; intensity 1 gives
  exactly 3 stops and intensity 10 exactly 7.
\<close>

theorem build_journey_stop_count:
  assumes "valid_request req"
  shows "int (length (path (build_journey req))) = clamp (2 + intensity req div 2) 3 7
       \<and> (intensity req = 1 \<longrightarrow> length (path (build_journey req)) = 3)
       \<and> (intensity req = 10 \<longrightarrow> length (path (build_journey req)) = 7)"
proof -
  have c: "int (length (path (build_journey req))) = clamp (2 + intensity req div 2) 3 7"
    using stop_count [of req] by (simp add: path_length_clamp)
  have "length (path (build_journey req)) = 3" if "intensity req = 1"
    using c that by (simp add: clamp_def)
  moreover have "length (path (build_journey req)) = 7" if "intensity req = 10"
    using c that by (simp add: clamp_def)
  ultimately show ?thesis using c by blast
qed

text \<open>The theorem at intensity 1 and at intensity 10.\<close>

theorem build_journey_stop_count_witness:
  "valid_request \<lparr>mood = ''somber'', interest = ''morality'', intensity = 1\<rparr>
   \<and> length (path (build_journey \<lparr>mood = ''somber'', interest = ''morality'', intensity = 1\<rparr>)) = 3
   \<and> valid_request \<lparr>mood = ''somber'', interest = ''morality'', intensity = 10\<rparr>
   \<and> length (path (build_journey \<lparr>mood = ''somber'', interest = ''morality'', intensity = 10\<rparr>)) = 7"
  using build_journey_stop_count [of "\<lparr>mood = ''somber'', interest = ''morality'', intensity = 1\<rparr>"]
        build_journey_stop_count [of "\<lparr>mood = ''somber'', interest = ''morality'', intensity = 10\<rparr>"]
  by (simp add: valid_request_def)

subsection \<open>The identifiers of the stops\<close>

text \<open>
  Claim C2. For every valid request, every stop of the response has a \<open>circle_id\<close>
  from 1 to 9, and no two stops of the response have the same \<open>circle_id\<close>.
\<close>

theorem build_journey_circle_ids:
  assumes "valid_request req"
  shows "(\<forall>s \<in> set (path (build_journey req)). circle_id s \<in> {1..9})
       \<and> distinct (map circle_id (path (build_journey req)))"
proof
  have "circle_id ` set (path (build_journey req)) = set (ordered_ids req)"
    using stop_ids [of req] by (metis set_map)
  then show "\<forall>s \<in> set (path (build_journey req)). circle_id s \<in> {1..9}"
    using ordered_ids_range [of req] by blast
  show "distinct (map circle_id (path (build_journey req)))"
    by (simp only: stop_ids ordered_ids_distinct)
qed

text \<open>The theorem at the longest journey of a curious reader of myths.\<close>

theorem build_journey_circle_ids_witness:
  "valid_request \<lparr>mood = ''curious'', interest = ''myth'', intensity = 10\<rparr>
   \<and> set (map circle_id (path (build_journey \<lparr>mood = ''curious'', interest = ''myth'', intensity = 10\<rparr>))) \<subseteq> {1..9}
   \<and> distinct (map circle_id (path (build_journey \<lparr>mood = ''curious'', interest = ''myth'', intensity = 10\<rparr>)))"
  using build_journey_circle_ids [of "\<lparr>mood = ''curious'', interest = ''myth'', intensity = 10\<rparr>"]
  by (auto simp: valid_request_def)

subsection \<open>Padding\<close>

text \<open>
  Claim C3. When the sorted union of the mood's and the interest's identifiers has fewer
  elements than the target length, the final path is that sorted union followed by the
  identifiers of the priority list 6, 7, 8, 9, 5, 4, 3, 2, 1 that are not in the union,
  in the list's order, as many as are missing to the target length or as the list has;
  and the stops of the response are on these identifiers, in this order.
\<close>

theorem build_journey_padding:
  assumes "int (length (sorted_list_of_set (base req))) < path_length (intensity req)"
  shows "ordered_ids req =
           sorted_list_of_set (base req)
           @ take (nat (path_length (intensity req)) - card (base req))
                  (filter (\<lambda>c. c \<notin> base req) [6, 7, 8, 9, 5, 4, 3, 2, 1])
       \<and> map circle_id (path (build_journey req)) = ordered_ids req"
proof -
  have s: "sort (sorted_list_of_set (base req)) = sorted_list_of_set (base req)"
    by (simp add: sorted_sort_id)
  have "ordered_ids req =
           sorted_list_of_set (base req)
           @ take (nat (path_length (intensity req)) - card (base req))
                  (filter (\<lambda>c. c \<notin> base req) PRIORITY)"
    unfolding ordered_ids_def
    using select_ids_pad [OF assms] by (simp add: s base_finite)
  then show ?thesis
    by (simp add: PRIORITY_def stop_ids)
qed

text \<open>
  The theorem on a somber moralist at intensity 10: four identifiers, a target of 7, and
  the padding 7, 8, 5 (6 and 9 are already there).
\<close>

theorem build_journey_padding_witness:
  "int (length (sorted_list_of_set (base \<lparr>mood = ''somber'', interest = ''morality'', intensity = 10\<rparr>)))
     < path_length (intensity \<lparr>mood = ''somber'', interest = ''morality'', intensity = 10\<rparr>)
   \<and> ordered_ids \<lparr>mood = ''somber'', interest = ''morality'', intensity = 10\<rparr> = [1, 4, 6, 9, 7, 8, 5]"
proof -
  let ?R = "\<lparr>mood = ''somber'', interest = ''morality'', intensity = 10\<rparr>"
  have h: "int (length (sorted_list_of_set (base ?R))) < path_length (intensity ?R)"
    by code_simp
  have e: "sorted_list_of_set (base ?R)
           @ take (nat (path_length (intensity ?R)) - card (base ?R))
                  (filter (\<lambda>c. c \<notin> base ?R) [6, 7, 8, 9, 5, 4, 3, 2, 1])
           = [1, 4, 6, 9, 7, 8, 5]"
    by code_simp
  from build_journey_padding [OF h] have "ordered_ids ?R = [1, 4, 6, 9, 7, 8, 5]"
    by (simp only: e)
  with h show ?thesis by (rule conjI)
qed

subsection \<open>A scenario\<close>

text \<open>
  Claim C4. On the request with mood "somber", interest "morality" and intensity 5,
  \<open>build_journey\<close> returns exactly 4 stops, on the circles 1, 4, 6 and 9 in that order;
  the base set is 1, 4, 6, 9 and the target length 4.
\<close>

theorem build_journey_somber_morality:
  "build_journey \<lparr>mood = ''somber'', interest = ''morality'', intensity = 5\<rparr> =
     \<lparr>title = ''A Personal Descent'',
      path =
        [\<lparr>circle_id = 1, stop_title = ''Limbo: The Unbaptized & Virtuous Pagans'',
          takeaway = ''Hope without action is a gentle prison.''\<rparr>,
         \<lparr>circle_id = 4, stop_title = ''Greed: Hoarders & Wasters'',
          takeaway = ''The pursuit of more can empty the soul.''\<rparr>,
         \<lparr>circle_id = 6, stop_title = ''Heresy: Denial of immortality'',
          takeaway = ''Certainty can calcify curiosity.''\<rparr>,
         \<lparr>circle_id = 9, stop_title = ''Treachery: Betrayers frozen in Cocytus'',
          takeaway = ''Trust is a sacred architecture.''\<rparr>],
      note' = ''Your path is a reflection, not a sentence. Carry the insight, not the weight.''\<rparr>
   \<and> length (path (build_journey \<lparr>mood = ''somber'', interest = ''morality'', intensity = 5\<rparr>)) = 4
   \<and> map circle_id (path (build_journey \<lparr>mood = ''somber'', interest = ''morality'', intensity = 5\<rparr>))
       = [1, 4, 6, 9]
   \<and> base \<lparr>mood = ''somber'', interest = ''morality'', intensity = 5\<rparr> = {1, 4, 6, 9}
   \<and> path_length 5 = 4"
  by code_simp

subsection \<open>Unknown mood and interest\<close>

text \<open>
  Claim C5. When the lower-cased mood is none of the four known moods and the lower-cased
  interest none of the five known interests, the base set is the union of the two
  fallbacks, 1, 2, 3, 4, 5.
\<close>

theorem base_unknown:
  assumes "lower (mood req) \<notin> {''curious'', ''somber'', ''reflective'', ''adventurous''}"
      and "lower (interest req)
             \<notin> {''literature'', ''psychology'', ''myth'', ''morality'', ''aesthetics''}"
  shows "base req = {1, 2, 3, 4, 5}"
proof -
  from assms(1) have "get mood_map (lower (mood req)) [1, 2, 3] = [1, 2, 3]"
    by (simp add: get_def mood_map_def)
  moreover from assms(2) have "get interest_map (lower (interest req)) [4, 5] = [4, 5]"
    by (simp add: get_def interest_map_def)
  ultimately show ?thesis
    by (auto simp: base_def)
qed

text \<open>The theorem on a mood and an interest that the tables do not have.\<close>

theorem base_unknown_witness:
  "lower (mood \<lparr>mood = ''Happy'', interest = ''Sports'', intensity = 5\<rparr>)
     \<notin> {''curious'', ''somber'', ''reflective'', ''adventurous''}
   \<and> lower (interest \<lparr>mood = ''Happy'', interest = ''Sports'', intensity = 5\<rparr>)
     \<notin> {''literature'', ''psychology'', ''myth'', ''morality'', ''aesthetics''}
   \<and> base \<lparr>mood = ''Happy'', interest = ''Sports'', intensity = 5\<rparr> = {1, 2, 3, 4, 5}"
proof -
  let ?R = "\<lparr>mood = ''Happy'', interest = ''Sports'', intensity = 5\<rparr>"
  have m: "lower (mood ?R) \<notin> {''curious'', ''somber'', ''reflective'', ''adventurous''}"
    by code_simp
  have i: "lower (interest ?R)
             \<notin> {''literature'', ''psychology'', ''myth'', ''morality'', ''aesthetics''}"
    by code_simp
  from m i base_unknown [OF m i] show ?thesis by blast
qed

subsection \<open>Validation\<close>




subsection \<open>The catalog\<close>

text \<open>
  Claim C7. \<open>get_circles\<close> returns the catalog itself: exactly 9 circles, whose
  identifiers are 1 to 9 in this order, so exactly the set from 1 to 9 with no
  duplicate, in the order of the definition (Limbo first, Treachery last). It has no
  argument and no error value.
\<close>

theorem get_circles_catalog:
  "get_circles = CIRCLES
   \<and> length get_circles = 9
   \<and> map id' get_circles = [1, 2, 3, 4, 5, 6, 7, 8, 9]
   \<and> set (map id' get_circles) = {1..9}
   \<and> distinct (map id' get_circles)
   \<and> map name get_circles =
       [''Limbo'', ''Lust'', ''Gluttony'', ''Greed'', ''Wrath'', ''Heresy'', ''Violence'',
        ''Fraud'', ''Treachery'']"
proof (intro conjI)
  show "get_circles = CIRCLES"
    by (rule get_circles_def)
  show "length get_circles = 9"
    by (simp add: get_circles_def CIRCLES_def)
  show ids: "map id' get_circles = [1, 2, 3, 4, 5, 6, 7, 8, 9]"
    by (simp add: get_circles_def CIRCLES_def)
  show "set (map id' get_circles) = {1..9}"
    unfolding ids by auto
  show "distinct (map id' get_circles)"
    unfolding ids by simp
  show "map name get_circles =
       [''Limbo'', ''Lust'', ''Gluttony'', ''Greed'', ''Wrath'', ''Heresy'', ''Violence'',
        ''Fraud'', ''Treachery'']"
    by (simp add: get_circles_def CIRCLES_def)
qed

subsection \<open>Every identifier has a circle\<close>

text \<open>
  Claim C8. For every valid request, every identifier of the final path is the
  identifier of a circle that the search of the catalog finds, so the branch that skips
  an identifier is never taken, and the response has one stop for each identifier of the
  path, in the path's order.
\<close>

theorem build_journey_resolves:
  assumes "valid_request req"
  shows "(\<forall>cid \<in> set (ordered_ids req).
            \<exists>c. find (\<lambda>c. id' c = cid) CIRCLES = Some c \<and> id' c = cid)
       \<and> map circle_id (path (build_journey req)) = ordered_ids req
       \<and> length (path (build_journey req)) = length (ordered_ids req)"
proof (intro conjI ballI)
  fix cid
  assume "cid \<in> set (ordered_ids req)"
  then have "cid \<in> {1..9}"
    using ordered_ids_range [of req] by blast
  then show "\<exists>c. find (\<lambda>c. id' c = cid) CIRCLES = Some c \<and> id' c = cid"
    by (rule find_circle)
next
  show ids: "map circle_id (path (build_journey req)) = ordered_ids req"
    by (rule stop_ids)
  show "length (path (build_journey req)) = length (ordered_ids req)"
    using ids by (metis length_map)
qed

text \<open>The theorem on a reflective psychologist at intensity 8.\<close>

theorem build_journey_resolves_witness:
  "valid_request \<lparr>mood = ''reflective'', interest = ''psychology'', intensity = 8\<rparr>
   \<and> map circle_id
        (path (build_journey \<lparr>mood = ''reflective'', interest = ''psychology'', intensity = 8\<rparr>))
      = ordered_ids \<lparr>mood = ''reflective'', interest = ''psychology'', intensity = 8\<rparr>
   \<and> ordered_ids \<lparr>mood = ''reflective'', interest = ''psychology'', intensity = 8\<rparr>
      = [1, 2, 3, 5, 7, 6]"
proof -
  let ?R = "\<lparr>mood = ''reflective'', interest = ''psychology'', intensity = 8\<rparr>"
  have v: "valid_request ?R" by (simp add: valid_request_def)
  have o: "ordered_ids ?R = [1, 2, 3, 5, 7, 6]" by code_simp
  from build_journey_resolves [OF v] v o show ?thesis by blast
qed

subsection \<open>Determinism\<close>

text \<open>
  Whatever order \<^verbatim>\<open>list(base)\<close> enumerates the set in, the response is the one of
  \<open>build_journey\<close>.
\<close>

lemma journey_of_listing_any:
  assumes "distinct xs" and "set xs = base req"
  shows "journey_of_listing xs (intensity req) = build_journey req"
proof -
  have "sort xs = sorted_list_of_set (base req)"
    using assms by (rule sort_listing)
  moreover have "sort (sorted_list_of_set (base req)) = sorted_list_of_set (base req)"
    by (simp add: sorted_sort_id)
  moreover have "length xs = length (sorted_list_of_set (base req))"
    using assms by (simp add: distinct_card [symmetric])
  ultimately show ?thesis
    by (simp add: build_journey_def journey_of_listing_def select_ids_def Let_def)
qed

text \<open>
  Claim C9. Two calls of \<open>build_journey\<close> with the same mood, interest and intensity
  return the same response, also when \<^verbatim>\<open>list(base)\<close> enumerates the set in two different
  orders \<open>xs\<close> and \<open>ys\<close>; its title is the constant "A Personal Descent" and its note
  the constant closing note.
\<close>

theorem build_journey_deterministic:
  assumes "mood r1 = mood r2" and "interest r1 = interest r2"
      and "intensity r1 = intensity r2"
      and "distinct xs" and "set xs = base r1"
      and "distinct ys" and "set ys = base r2"
  shows "build_journey r1 = build_journey r2
       \<and> journey_of_listing xs (intensity r1) = journey_of_listing ys (intensity r2)
       \<and> title (build_journey r1) = ''A Personal Descent''
       \<and> note' (build_journey r1) =
           ''Your path is a reflection, not a sentence. Carry the insight, not the weight.''"
proof -
  have b: "base r1 = base r2"
    using assms(1,2) by (simp add: base_def)
  have e: "build_journey r1 = build_journey r2"
    using assms(3) b by (simp add: build_journey_def)
  have "journey_of_listing xs (intensity r1) = build_journey r1"
    using assms(4,5) by (rule journey_of_listing_any)
  moreover have "journey_of_listing ys (intensity r2) = build_journey r2"
    using assms(6,7) by (rule journey_of_listing_any)
  ultimately have "journey_of_listing xs (intensity r1) = journey_of_listing ys (intensity r2)"
    using e by simp
  with e show ?thesis
    by (simp add: build_journey_def journey_of_listing_def NOTE_def)
qed

text \<open>
  The theorem on the somber moralist, with two enumerations of the base set; the same
  request in capitals has the same response.
\<close>

theorem build_journey_deterministic_witness:
  "journey_of_listing [9, 6, 4, 1] 5 = journey_of_listing [4, 1, 9, 6] 5
   \<and> build_journey \<lparr>mood = ''somber'', interest = ''morality'', intensity = 5\<rparr>
     = build_journey \<lparr>mood = ''SOMBER'', interest = ''Morality'', intensity = 5\<rparr>"
proof -
  let ?r1 = "\<lparr>mood = ''somber'', interest = ''morality'', intensity = 5\<rparr>"
  let ?r2 = "\<lparr>mood = ''SOMBER'', interest = ''Morality'', intensity = 5\<rparr>"
  have x: "set [9, 6, 4, 1] = base ?r1" by code_simp
  have y: "set [4, 1, 9, 6] = base ?r1" by code_simp
  have "journey_of_listing [9, 6, 4, 1] (intensity ?r1)
        = journey_of_listing [4, 1, 9, 6] (intensity ?r1)"
    using build_journey_deterministic [of ?r1 ?r1 "[9, 6, 4, 1]" "[4, 1, 9, 6]"] x y
    by simp
  then show ?thesis by code_simp
qed

subsection \<open>Monotonicity in the intensity\<close>

lemma path_length_mono: "i \<le> j \<Longrightarrow> path_length i \<le> path_length j"
  unfolding path_length_def by linarith


text \<open>
  Claim C10. For a fixed mood and interest, the number of stops does not decrease with
  the intensity: for intensities \<open>i\<close> and \<open>j\<close> with \<open>1 \<le> i \<le> j \<le> 10\<close>, the path for
  \<open>i\<close> is at most as long as the path for \<open>j\<close>.
\<close>

theorem build_journey_monotone:
  assumes "1 \<le> i" and "i \<le> j" and "j \<le> 10"
  shows "length (path (build_journey \<lparr>mood = m, interest = t, intensity = i\<rparr>))
       \<le> length (path (build_journey \<lparr>mood = m, interest = t, intensity = j\<rparr>))"
proof -
  have "int (length (path (build_journey \<lparr>mood = m, interest = t, intensity = i\<rparr>)))
        = path_length i"
    using stop_count [of "\<lparr>mood = m, interest = t, intensity = i\<rparr>"] by simp
  moreover
  have "int (length (path (build_journey \<lparr>mood = m, interest = t, intensity = j\<rparr>)))
        = path_length j"
    using stop_count [of "\<lparr>mood = m, interest = t, intensity = j\<rparr>"] by simp
  moreover have "path_length i \<le> path_length j"
    using assms(2) by (rule path_length_mono)
  ultimately show ?thesis by linarith
qed

text \<open>The theorem at intensities 3 and 8.\<close>

theorem build_journey_monotone_witness:
  "(1::int) \<le> 3 \<and> (3::int) \<le> 8 \<and> (8::int) \<le> 10
   \<and> length (path (build_journey \<lparr>mood = ''adventurous'', interest = ''aesthetics'', intensity = 3\<rparr>))
     \<le> length (path (build_journey \<lparr>mood = ''adventurous'', interest = ''aesthetics'', intensity = 8\<rparr>))"
  using build_journey_monotone [of 3 8 "''adventurous''" "''aesthetics''"]
  by simp

end
